theory Spec2Isabelle
  imports Main
begin

section \<open>The frontend manager: data model\<close>

text \<open>
  The development is a shallow embedding of \<^verbatim>\<open>scripts/apps/webapp/frontend_manager.py\<close>.
  The Python object \<^verbatim>\<open>FrontendManager\<close> is a record; every method takes the record and
  returns the updated one. Everything outside the object (file system, child processes,
  sockets, the clock) is a \<open>world\<close>: the list of calls made so far and the current time.
  What the outside answers to a call is given by an \<open>env\<close> of oracles, each of which may
  depend on the whole history of calls. Calls to the logger change nothing the code reads
  back and are left out. Library calls raise only where the source has a handler for it
  or where the outcome decides a branch; blocking calls are taken to return.
\<close>

type_synonym port = int
type_synonym handle = nat

text \<open>A Python \<^verbatim>\<open>str\<close> read from a file is a list of Unicode code points, each the
  integer that \<^verbatim>\<open>ord\<close> gives.\<close>

type_synonym pystr = "int list"

definition codes :: "string \<Rightarrow> pystr" where
  "codes s = map of_char s"

datatype sink = Stdout | Stderr

datatype exn =
    UnboundLocalError
  | OtherException nat

datatype event =
    NetConnections port
  | NodeModulesExists
  | NpmInstall
  | NpmKill
  | MkdirLogs
  | OpenLog sink
  | Spawn string port
  | Poll
  | ReadLog
  | HttpGet string
  | Sleep
  | Terminate
  | WaitTimeout
  | Kill
  | WaitForever
  | CloseLog handle

record world =
  now :: int
  trace :: "event list"

definition emit :: "event \<Rightarrow> world \<Rightarrow> world" where
  "emit ev w = w\<lparr>trace := trace w @ [ev]\<rparr>"

text \<open>The fields of \<^verbatim>\<open>FrontendManager.__init__\<close> that the methods read, then the six
  runtime fields (\<^verbatim>\<open># Etat runtime\<close>). A \<^verbatim>\<open>Popen\<close> object is its pid.\<close>

record manager =
  enabled :: bool
  frontend_path :: "string option"
  start_port :: port
  fallback_ports :: "port list"
  start_command :: string
  timeout_seconds :: int
  process :: "int option"
  current_port :: "port option"
  current_url :: "string option"
  pid :: "int option"
  frontend_stdout_log_file :: "handle option"
  frontend_stderr_log_file :: "handle option"

text \<open>The dictionaries returned by \<^verbatim>\<open>start_with_failover\<close> and \<^verbatim>\<open>_start_on_port\<close>: a key
  that is absent from the dictionary is \<open>None\<close>. The error texts are constructors.\<close>

datatype error =
    FrontendDisabled
  | PathNotFound
  | DepsInstallFailed
  | StartFailed port
  | Critical exn
  | AllPortsFailed "port list"

record result =
  success :: bool
  url :: "string option"
  port :: "port option"
  res_pid :: "int option"
  error :: "error option"

definition failure :: "error \<Rightarrow> result" where
  "failure e = \<lparr>success = False, url = None, port = None, res_pid = None, error = Some e\<rparr>"

subsection \<open>Outcomes of the calls to the outside\<close>

record conn =
  laddr_port :: "port option"
  listening :: bool

datatype net_outcome = Conns "conn list" | AccessDenied

datatype install_outcome =
    InstallSpawnError
  | InstallExit int
  | InstallTimeout
  | InstallOtherError

datatype wait_outcome = Exited | TimeoutExpired | WaitError

datatype log_outcome = LogMissing | LogUnreadable | LogContent pystr

datatype http_outcome = HttpStatus int | HttpClientError | HttpOtherError exn

record env =
  net_connections :: "event list \<Rightarrow> net_outcome"
  node_modules_exists :: "event list \<Rightarrow> bool"
  npm_install :: "event list \<Rightarrow> install_outcome"
  mkdir_logs :: "event list \<Rightarrow> exn option"
  open_log :: "event list \<Rightarrow> exn + handle"
  popen :: "event list \<Rightarrow> exn + int"
  poll :: "event list \<Rightarrow> int option"
  read_log :: "event list \<Rightarrow> log_outcome"
  http_get :: "event list \<Rightarrow> http_outcome"
  http_time :: "event list \<Rightarrow> nat"
  sleep_extra :: "event list \<Rightarrow> nat"
  terminate :: "event list \<Rightarrow> exn option"
  wait_timeout :: "event list \<Rightarrow> wait_outcome"
  kill :: "event list \<Rightarrow> exn option"
  close_log :: "event list \<Rightarrow> exn option"

section \<open>stop\<close>

text \<open>Lines 269-286: terminate, wait up to ten seconds, kill and wait on
  \<^verbatim>\<open>TimeoutExpired\<close>. Any \<^verbatim>\<open>Exception\<close> ends the block and is only logged.\<close>

definition shutdown :: "env \<Rightarrow> world \<Rightarrow> world" where
  "shutdown e w =
     (let w1 = emit Terminate w in
      case terminate e (trace w1) of
        Some x \<Rightarrow> w1
      | None \<Rightarrow>
          (let w2 = emit WaitTimeout w1 in
           case wait_timeout e (trace w2) of
             Exited \<Rightarrow> w2
           | WaitError \<Rightarrow> w2
           | TimeoutExpired \<Rightarrow>
               (let w3 = emit Kill w2 in
                case kill e (trace w3) of
                  Some x \<Rightarrow> w3
                | None \<Rightarrow> emit WaitForever w3)))"

text \<open>Lines 288-300: a sink that is set is closed once, whether or not \<^verbatim>\<open>close\<close> raises.\<close>

definition close_sink :: "handle option \<Rightarrow> world \<Rightarrow> world" where
  "close_sink ho w = (case ho of None \<Rightarrow> w | Some h \<Rightarrow> emit (CloseLog h) w)"

definition stop :: "env \<Rightarrow> manager \<Rightarrow> world \<Rightarrow> manager \<times> world" where
  "stop e m w =
     (case process m of
        None \<Rightarrow> (m, w)
      | Some p \<Rightarrow>
          (let w1 = shutdown e w;
               w2 = close_sink (frontend_stdout_log_file m) w1;
               w3 = close_sink (frontend_stderr_log_file m) w2
           in (m\<lparr>frontend_stdout_log_file := None,
                 frontend_stderr_log_file := None,
                 process := None,
                 current_url := None,
                 pid := None\<rparr>, w3)))"

section \<open>get_status and health_check\<close>




section \<open>Port occupancy\<close>

text \<open>Lines 233-247. The connection table is scanned in order; a connection without a
  local address makes \<^verbatim>\<open>conn.laddr.port\<close> raise \<^verbatim>\<open>AttributeError\<close>, which like
  \<^verbatim>\<open>AccessDenied\<close> leads to the fallback. The fallback enters the session with a plain
  \<^verbatim>\<open>with\<close>; \<^verbatim>\<open>aiohttp.ClientSession.__enter__\<close> raises \<^verbatim>\<open>TypeError\<close>, the bare
  \<^verbatim>\<open>except\<close> swallows it before any request is sent, and the method returns
  \<^verbatim>\<open>False\<close>.\<close>

datatype scan_result = Found | NotFound | AttributeError

fun scan :: "conn list \<Rightarrow> port \<Rightarrow> scan_result" where
  "scan [] p = NotFound"
| "scan (c # cs) p =
     (case laddr_port c of
        None \<Rightarrow> AttributeError
      | Some q \<Rightarrow> if q = p \<and> listening c then Found else scan cs p)"

definition fallback_probe :: "port \<Rightarrow> world \<Rightarrow> bool \<times> world" where
  "fallback_probe p w = (False, w)"

definition is_port_occupied :: "env \<Rightarrow> port \<Rightarrow> world \<Rightarrow> bool \<times> world" where
  "is_port_occupied e p w =
     (let w1 = emit (NetConnections p) w in
      case net_connections e (trace w1) of
        AccessDenied \<Rightarrow> fallback_probe p w1
      | Conns cs \<Rightarrow>
          (case scan cs p of
             Found \<Rightarrow> (True, w1)
           | NotFound \<Rightarrow> (False, w1)
           | AttributeError \<Rightarrow> fallback_probe p w1))"

section \<open>Dependencies\<close>

text \<open>Lines 148-174. The method has no \<^verbatim>\<open>return\<close> statement: on every path it falls off
  its end, and a Python function that does so returns \<^verbatim>\<open>None\<close>. The value is kept as a
  Python value because the caller tests its truth.\<close>

datatype pyval = PyNone | PyBool bool

fun truthy :: "pyval \<Rightarrow> bool" where
  "truthy PyNone = False"
| "truthy (PyBool b) = b"

definition ensure_dependencies :: "env \<Rightarrow> world \<Rightarrow> pyval \<times> world" where
  "ensure_dependencies e w =
     (let w1 = emit NodeModulesExists w in
      if node_modules_exists e (trace w1) then (PyNone, w1)
      else
        (let w2 = emit NpmInstall w1 in
         case npm_install e (trace w2) of
           InstallSpawnError \<Rightarrow> (PyNone, w2)
         | InstallExit c \<Rightarrow> (PyNone, w2)
         | InstallTimeout \<Rightarrow> (PyNone, emit NpmKill w2)
         | InstallOtherError \<Rightarrow> (PyNone, w2)))"

section \<open>Readiness\<close>

subsection \<open>The announcement pattern and the URL\<close>

text \<open>\<^verbatim>\<open>re.search(r"Local:\s+(http://localhost:(\d+))", log_content)\<close>: the leftmost
  position where the literal, at least one white-space character, the URL prefix and at
  least one decimal digit follow each other. Both repetitions are greedy, and neither
  can give a character back: what follows the white space is \<open>h\<close>, and nothing follows
  the digits. The result is group 2. On a \<^verbatim>\<open>str\<close> pattern \<^verbatim>\<open>\s\<close> is the Unicode white
  space and \<^verbatim>\<open>\d\<close> the Unicode decimal digits (category Nd): the tables are those of
  CPython 3.11 (Unicode 14.0), the digits as runs of code points whose value is the
  offset in the run modulo ten.\<close>

definition is_space :: "int \<Rightarrow> bool" where
  "is_space c =
     (c \<in> set [0x09, 0x0A, 0x0B, 0x0C, 0x0D, 0x1C, 0x1D, 0x1E, 0x1F, 0x20, 0x85, 0xA0,
               0x1680, 0x2000, 0x2001, 0x2002, 0x2003, 0x2004, 0x2005, 0x2006, 0x2007,
               0x2008, 0x2009, 0x200A, 0x2028, 0x2029, 0x202F, 0x205F, 0x3000])"

definition digit_runs :: "(int \<times> int) list" where
  "digit_runs =
     [(0x30, 10), (0x660, 10), (0x6F0, 10), (0x7C0, 10), (0x966, 10), (0x9E6, 10),
      (0xA66, 10), (0xAE6, 10), (0xB66, 10), (0xBE6, 10), (0xC66, 10), (0xCE6, 10),
      (0xD66, 10), (0xDE6, 10), (0xE50, 10), (0xED0, 10), (0xF20, 10), (0x1040, 10),
      (0x1090, 10), (0x17E0, 10), (0x1810, 10), (0x1946, 10), (0x19D0, 10), (0x1A80, 10),
      (0x1A90, 10), (0x1B50, 10), (0x1BB0, 10), (0x1C40, 10), (0x1C50, 10), (0xA620, 10),
      (0xA8D0, 10), (0xA900, 10), (0xA9D0, 10), (0xA9F0, 10), (0xAA50, 10), (0xABF0, 10),
      (0xFF10, 10), (0x104A0, 10), (0x10D30, 10), (0x11066, 10), (0x110F0, 10),
      (0x11136, 10), (0x111D0, 10), (0x112F0, 10), (0x11450, 10), (0x114D0, 10),
      (0x11650, 10), (0x116C0, 10), (0x11730, 10), (0x118E0, 10), (0x11950, 10),
      (0x11C50, 10), (0x11D50, 10), (0x11DA0, 10), (0x16A60, 10), (0x16AC0, 10),
      (0x16B50, 10), (0x1D7CE, 50), (0x1E140, 10), (0x1E2F0, 10), (0x1E950, 10),
      (0x1FBF0, 10)]"

fun run_value :: "(int \<times> int) list \<Rightarrow> int \<Rightarrow> int option" where
  "run_value [] c = None"
| "run_value ((a, n) # rs) c =
     (if a \<le> c \<and> c < a + n then Some ((c - a) mod 10) else run_value rs c)"

definition decimal_value :: "int \<Rightarrow> int option" where
  "decimal_value c = run_value digit_runs c"

definition is_digit :: "int \<Rightarrow> bool" where
  "is_digit c = (decimal_value c \<noteq> None)"

fun strip_prefix :: "'a list \<Rightarrow> 'a list \<Rightarrow> 'a list option" where
  "strip_prefix [] s = Some s"
| "strip_prefix (p # ps) [] = None"
| "strip_prefix (p # ps) (c # cs) = (if p = c then strip_prefix ps cs else None)"

definition match_here :: "pystr \<Rightarrow> pystr option" where
  "match_here s =
     (case strip_prefix (codes ''Local:'') s of
        None \<Rightarrow> None
      | Some r \<Rightarrow>
          if takeWhile is_space r = [] then None
          else
            (case strip_prefix (codes ''http://localhost:'') (dropWhile is_space r) of
               None \<Rightarrow> None
             | Some r' \<Rightarrow>
                 if takeWhile is_digit r' = [] then None
                 else Some (takeWhile is_digit r')))"

fun re_search :: "pystr \<Rightarrow> pystr option" where
  "re_search [] = None"
| "re_search (c # cs) =
     (case match_here (c # cs) of
        Some ds \<Rightarrow> Some ds
      | None \<Rightarrow> re_search cs)"

text \<open>\<^verbatim>\<open>int(match.group(2))\<close>: the decimal value of the digits, or \<^verbatim>\<open>ValueError\<close> (here
  \<open>None\<close>) when there are more than 4300 of them, the default limit of CPython on the
  conversion of a string to an integer; leading zeros count. Then
  \<^verbatim>\<open>f"{detected_port}"\<close>.\<close>

definition digit_val :: "int \<Rightarrow> int" where
  "digit_val c = (case decimal_value c of None \<Rightarrow> 0 | Some d \<Rightarrow> d)"

definition int_of_digits :: "pystr \<Rightarrow> int" where
  "int_of_digits ds = foldl (\<lambda>n c. 10 * n + digit_val c) 0 ds"

definition py_int :: "pystr \<Rightarrow> int option" where
  "py_int ds = (if 4300 < length ds then None else Some (int_of_digits ds))"

definition digit_char :: "nat \<Rightarrow> char" where
  "digit_char d = char_of (48 + d)"

fun str_nat :: "nat \<Rightarrow> string" where
  "str_nat n = (if n < 10 then [digit_char n] else str_nat (n div 10) @ [digit_char (n mod 10)])"

declare str_nat.simps [simp del]

definition str_int :: "int \<Rightarrow> string" where
  "str_int i = (if i < 0 then CHR ''-'' # str_nat (nat (- i)) else str_nat (nat i))"

definition url_of :: "port \<Rightarrow> string" where
  "url_of p = ''http://localhost:'' @ str_int p"

subsection \<open>The polling loop\<close>

text \<open>Time is counted in milliseconds. Reading the log (lines 201-213): a missing file, or
  any exception while reading or converting (line 212), leaves the tracked port as it
  is.\<close>

definition scrape :: "env \<Rightarrow> port \<Rightarrow> world \<Rightarrow> port \<times> world" where
  "scrape e det w =
     (let w1 = emit ReadLog w in
      case read_log e (trace w1) of
        LogMissing \<Rightarrow> (det, w1)
      | LogUnreadable \<Rightarrow> (det, w1)
      | LogContent s \<Rightarrow>
          (case re_search s of
             None \<Rightarrow> (det, w1)
           | Some ds \<Rightarrow>
               (case py_int ds of
                  None \<Rightarrow> (det, w1)
                | Some new_port \<Rightarrow> (if new_port \<noteq> det then new_port else det, w1))))"

definition http_probe :: "env \<Rightarrow> string \<Rightarrow> world \<Rightarrow> http_outcome \<times> world" where
  "http_probe e u w =
     (let w1 = emit (HttpGet u) w in
      (http_get e (trace w1), w1\<lparr>now := now w1 + int (http_time e (trace w1))\<rparr>))"

definition sleep2 :: "env \<Rightarrow> world \<Rightarrow> world" where
  "sleep2 e w =
     (let w1 = emit Sleep w in w1\<lparr>now := now w1 + 2000 + int (sleep_extra e (trace w1))\<rparr>)"

text \<open>Lines 194-231. The fourth argument is the local variable \<^verbatim>\<open>url_to_check\<close>, which is
  bound only inside the loop body: \<open>None\<close> is "not yet assigned", and the message after
  the loop (line 230) reads it.\<close>

function wait_loop ::
  "env \<Rightarrow> int \<Rightarrow> port \<Rightarrow> string option \<Rightarrow> world
     \<Rightarrow> (exn + bool \<times> port option \<times> string option) \<times> world" where
  "wait_loop e end_time det u w =
     (if now w < end_time then
        (let w1 = emit Poll w in
         case poll e (trace w1) of
           Some code \<Rightarrow> (Inr (False, None, None), w1)
         | None \<Rightarrow>
             (let det' = fst (scrape e det w1);
                  w2 = snd (scrape e det w1);
                  r = fst (http_probe e (url_of det') w2);
                  w3 = snd (http_probe e (url_of det') w2)
              in case r of
                   HttpStatus st \<Rightarrow>
                     if st = 200 then (Inr (True, Some det', Some (url_of det')), w3)
                     else wait_loop e end_time det' (Some (url_of det')) (sleep2 e w3)
                 | HttpClientError \<Rightarrow>
                     wait_loop e end_time det' (Some (url_of det')) (sleep2 e w3)
                 | HttpOtherError x \<Rightarrow> (Inl x, w3)))
      else
        (case u of
           None \<Rightarrow> (Inl UnboundLocalError, w)
         | Some v \<Rightarrow> (Inr (False, None, None), w)))"
  by pat_completeness auto

termination wait_loop
proof (relation "measure (\<lambda>(e, end_time, det, u, w). nat (end_time - now w))", goal_cases)
  case 1
  show ?case by simp
next
  case (2 e end_time det u w w1 det' w2 r w3 st)
  have "now w2 = now w"
    using 2 by (simp add: scrape_def emit_def Let_def split: log_outcome.split option.split)
  moreover have "now w2 \<le> now w3"
    using 2 by (simp add: http_probe_def emit_def Let_def)
  moreover have "now w3 + 2000 \<le> now (sleep2 e w3)"
    by (simp add: sleep2_def emit_def Let_def)
  ultimately show ?case
    using 2 by simp
next
  case (3 e end_time det u w w1 det' w2 r w3)
  have "now w2 = now w"
    using 3 by (simp add: scrape_def emit_def Let_def split: log_outcome.split option.split)
  moreover have "now w2 \<le> now w3"
    using 3 by (simp add: http_probe_def emit_def Let_def)
  moreover have "now w3 + 2000 \<le> now (sleep2 e w3)"
    by (simp add: sleep2_def emit_def Let_def)
  ultimately show ?case
    using 3 by simp
qed

definition wait_for_frontend ::
  "env \<Rightarrow> manager \<Rightarrow> port \<Rightarrow> world \<Rightarrow> (exn + bool \<times> port option \<times> string option) \<times> world" where
  "wait_for_frontend e m initial_port w =
     wait_loop e (now w + 1000 * timeout_seconds m) initial_port None w"

section \<open>One attempt on one port\<close>

text \<open>The handler of lines 143-146.\<close>

definition on_exception :: "env \<Rightarrow> exn \<Rightarrow> manager \<Rightarrow> world \<Rightarrow> result \<times> manager \<times> world" where
  "on_exception e x m w = (let (m', w') = stop e m w in (failure (Critical x), m', w'))"

text \<open>Lines 115-141, the \<^verbatim>\<open>try\<close> block.\<close>

definition launch :: "env \<Rightarrow> port \<Rightarrow> manager \<Rightarrow> world \<Rightarrow> result \<times> manager \<times> world" where
  "launch e p m w =
     (let w1 = emit MkdirLogs w in
      case mkdir_logs e (trace w1) of
        Some x \<Rightarrow> on_exception e x m w1
      | None \<Rightarrow>
          (let w2 = emit (OpenLog Stdout) w1 in
           case open_log e (trace w2) of
             Inl x \<Rightarrow> on_exception e x m w2
           | Inr h1 \<Rightarrow>
               (let m1 = m\<lparr>frontend_stdout_log_file := Some h1\<rparr>;
                    w3 = emit (OpenLog Stderr) w2 in
                case open_log e (trace w3) of
                  Inl x \<Rightarrow> on_exception e x m1 w3
                | Inr h2 \<Rightarrow>
                    (let m2 = m1\<lparr>frontend_stderr_log_file := Some h2\<rparr>;
                         w4 = emit (Spawn (start_command m) p) w3 in
                     case popen e (trace w4) of
                       Inl x \<Rightarrow> on_exception e x m2 w4
                     | Inr child \<Rightarrow>
                         (let m3 = m2\<lparr>process := Some child\<rparr> in
                          case wait_for_frontend e m3 p w4 of
                            (Inl x, w5) \<Rightarrow> on_exception e x m3 w5
                          | (Inr (ready, final_port, final_url), w5) \<Rightarrow>
                              if ready then
                                (\<lparr>success = True, url = final_url, port = final_port,
                                  res_pid = Some child, error = None\<rparr>,
                                 m3\<lparr>current_port := final_port, current_url := final_url,
                                    pid := Some child\<rparr>,
                                 w5)
                              else
                                (let (m4, w6) = stop e m3 w5
                                 in (failure (StartFailed p), m4, w6)))))))"

text \<open>Lines 108-113: the attempt goes on to the \<^verbatim>\<open>try\<close> block only when what
  \<^verbatim>\<open>_ensure_dependencies\<close> returned is true.\<close>

definition start_on_port :: "env \<Rightarrow> port \<Rightarrow> manager \<Rightarrow> world \<Rightarrow> result \<times> manager \<times> world" where
  "start_on_port e p m w =
     (let (deps, w0) = ensure_dependencies e w in
      if \<not> truthy deps then (failure DepsInstallFailed, m, w0)
      else launch e p m w0)"

section \<open>Failover over the candidate ports\<close>

text \<open>Lines 94-102, the \<^verbatim>\<open>for\<close> loop. The two methods it calls on \<^verbatim>\<open>self\<close> are arguments,
  so that the loop can be studied for any probe and any attempt; \<open>None\<close> is the loop
  running to its end.\<close>

fun failover_loop ::
  "(port \<Rightarrow> 's \<Rightarrow> bool \<times> 's) \<Rightarrow> (port \<Rightarrow> 's \<Rightarrow> result \<times> 's) \<Rightarrow> port list \<Rightarrow> 's
     \<Rightarrow> result option \<times> 's" where
  "failover_loop occ att [] s = (None, s)"
| "failover_loop occ att (p # ps) s =
     (case occ p s of
        (True, s1) \<Rightarrow> failover_loop occ att ps s1
      | (False, s1) \<Rightarrow>
          (case att p s1 of
             (r, s2) \<Rightarrow> if success r then (Some r, s2) else failover_loop occ att ps s2))"

definition ports_to_try :: "manager \<Rightarrow> port list" where
  "ports_to_try m = [start_port m] @ fallback_ports m"

definition disabled_result :: result where
  "disabled_result =
     \<lparr>success = True, url = None, port = None, res_pid = None, error = Some FrontendDisabled\<rparr>"

text \<open>Lines 82-106, with the two methods as arguments.\<close>

definition start_with_failover_via ::
  "(port \<Rightarrow> 's \<Rightarrow> bool \<times> 's) \<Rightarrow> (port \<Rightarrow> 's \<Rightarrow> result \<times> 's) \<Rightarrow> manager \<Rightarrow> 's
     \<Rightarrow> result \<times> 's" where
  "start_with_failover_via occ att m s =
     (if \<not> enabled m then (disabled_result, s)
      else if frontend_path m = None then (failure PathNotFound, s)
      else
        (case failover_loop occ att (ports_to_try m) s of
           (Some r, s') \<Rightarrow> (r, s')
         | (None, s') \<Rightarrow> (failure (AllPortsFailed (ports_to_try m)), s')))"

definition probe_step :: "env \<Rightarrow> port \<Rightarrow> manager \<times> world \<Rightarrow> bool \<times> manager \<times> world" where
  "probe_step e p s = (let (b, w') = is_port_occupied e p (snd s) in (b, fst s, w'))"

definition attempt_step :: "env \<Rightarrow> port \<Rightarrow> manager \<times> world \<Rightarrow> result \<times> manager \<times> world" where
  "attempt_step e p s = start_on_port e p (fst s) (snd s)"

definition start_with_failover :: "env \<Rightarrow> manager \<Rightarrow> world \<Rightarrow> result \<times> manager \<times> world" where
  "start_with_failover e m w = start_with_failover_via (probe_step e) (attempt_step e) m (m, w)"

section \<open>Construction and path resolution\<close>

text \<open>Lines 62-80. The file system is the predicate \<open>ex\<close> (\<^verbatim>\<open>Path.exists\<close>) and the current
  directory. An empty configured string is false in Python and counts as not configured.\<close>

definition join :: "string \<Rightarrow> string \<Rightarrow> string" where
  "join d f = d @ ''/'' @ f"

definition candidate_paths :: "string \<Rightarrow> string list" where
  "candidate_paths project_root =
     [join project_root ''interface_web'',
      join project_root ''frontend'',
      join project_root ''services/web_api/interface-web-argumentative'']"

fun first_with_manifest :: "(string \<Rightarrow> bool) \<Rightarrow> string list \<Rightarrow> string option" where
  "first_with_manifest ex [] = None"
| "first_with_manifest ex (d # ds) =
     (if ex (join d ''package.json'') then Some d else first_with_manifest ex ds)"

definition find_frontend_path :: "(string \<Rightarrow> bool) \<Rightarrow> string \<Rightarrow> string option \<Rightarrow> string option" where
  "find_frontend_path ex cwd configured_path =
     (case configured_path of
        None \<Rightarrow> first_with_manifest ex (candidate_paths cwd)
      | Some c \<Rightarrow>
          if c \<noteq> [] \<and> ex c then Some c
          else first_with_manifest ex (candidate_paths cwd))"

text \<open>Lines 38-58: the configuration dictionary, a missing key being \<open>None\<close>, and the
  object built from it.\<close>

record config =
  cfg_enabled :: "bool option"
  cfg_path :: "string option"
  cfg_start_port :: "port option"
  cfg_fallback_ports :: "port list option"
  cfg_start_command :: "string option"
  cfg_timeout_seconds :: "int option"

definition init :: "(string \<Rightarrow> bool) \<Rightarrow> string \<Rightarrow> config \<Rightarrow> manager" where
  "init ex cwd c =
     \<lparr>enabled = (case cfg_enabled c of None \<Rightarrow> True | Some b \<Rightarrow> b),
      frontend_path = find_frontend_path ex cwd (cfg_path c),
      start_port = (case cfg_start_port c of None \<Rightarrow> 3000 | Some p \<Rightarrow> p),
      fallback_ports = (case cfg_fallback_ports c of None \<Rightarrow> [3001, 3002] | Some ps \<Rightarrow> ps),
      start_command = (case cfg_start_command c of None \<Rightarrow> ''npm start'' | Some x \<Rightarrow> x),
      timeout_seconds = (case cfg_timeout_seconds c of None \<Rightarrow> 90 | Some t \<Rightarrow> t),
      process = None,
      current_port = None,
      current_url = None,
      pid = None,
      frontend_stdout_log_file = None,
      frontend_stderr_log_file = None\<rparr>"

section \<open>Concrete inputs\<close>

text \<open>A file system with the project at a configured path, and an outside where port 3000
  is taken, the dependencies are installed and the child announces port 3001 and
  answers 200 at once.\<close>

definition demo_env :: env where
  "demo_env =
     \<lparr>net_connections = (\<lambda>h. Conns [\<lparr>laddr_port = Some 3000, listening = True\<rparr>]),
      node_modules_exists = (\<lambda>h. True),
      npm_install = (\<lambda>h. InstallExit 0),
      mkdir_logs = (\<lambda>h. None),
      open_log = (\<lambda>h. Inr (length h)),
      popen = (\<lambda>h. Inr 4242),
      poll = (\<lambda>h. None),
      read_log = (\<lambda>h. LogContent (codes ''  Local:            http://localhost:3001'')),
      http_get = (\<lambda>h. HttpStatus 200),
      http_time = (\<lambda>h. 0),
      sleep_extra = (\<lambda>h. 0),
      terminate = (\<lambda>h. None),
      wait_timeout = (\<lambda>h. Exited),
      kill = (\<lambda>h. None),
      close_log = (\<lambda>h. None)\<rparr>"

definition demo_config :: config where
  "demo_config =
     \<lparr>cfg_enabled = None, cfg_path = Some ''/srv/frontend'', cfg_start_port = None,
      cfg_fallback_ports = None, cfg_start_command = None, cfg_timeout_seconds = None\<rparr>"

definition demo_manager :: manager where
  "demo_manager = init (\<lambda>p. p = ''/srv/frontend'') ''/work'' demo_config"

definition w0 :: world where
  "w0 = \<lparr>now = 0, trace = []\<rparr>"

text \<open>The object after a start on port 3000 that went through the \<^verbatim>\<open>try\<close> block of
  \<^verbatim>\<open>_start_on_port\<close> to its successful end (lines 115-138).\<close>

definition started_manager :: manager where
  "started_manager = fst (snd (launch demo_env 3000 demo_manager w0))"

section \<open>The invariant of the runtime fields\<close>

definition all_absent :: "manager \<Rightarrow> bool" where
  "all_absent m =
     (process m = None \<and> current_port m = None \<and> current_url m = None \<and> pid m = None
      \<and> frontend_stdout_log_file m = None \<and> frontend_stderr_log_file m = None)"


section \<open>The attributes of the class\<close>

text \<open>The names that \<^verbatim>\<open>__init__\<close> assigns on the object and the names the class body
  defines; the class has no base class, so these are all the names an attribute lookup
  on a \<^verbatim>\<open>FrontendManager\<close> finds besides those of \<^verbatim>\<open>object\<close>.\<close>

definition instance_attributes :: "string list" where
  "instance_attributes =
     [''config'', ''logger'', ''enabled'', ''frontend_path'', ''start_port'',
      ''fallback_ports'', ''start_command'', ''build_command'', ''timeout_seconds'',
      ''max_attempts'', ''process'', ''current_port'', ''current_url'', ''pid'',
      ''frontend_stdout_log_file'', ''frontend_stderr_log_file'']"

definition methods :: "string list" where
  "methods =
     [''__init__'', ''_find_frontend_path'', ''start_with_failover'', ''_start_on_port'',
      ''_ensure_dependencies'', ''_get_frontend_env'', ''_wait_for_frontend'',
      ''_is_port_occupied'', ''health_check'', ''stop'', ''get_status'']"

definition has_attribute :: "string \<Rightarrow> bool" where
  "has_attribute name = (name \<in> set (instance_attributes @ methods))"

section \<open>Observing the failover loop\<close>

text \<open>To state what the loop does with its two methods, each is wrapped so that it also
  writes down that it was called: the port, and what it answered. The wrapped run
  carries the list of these steps next to the state. \<open>follows\<close> reads such a list
  against the candidate ports: each port in turn is probed; an occupied port has no
  attempt; a free port has one attempt; a successful attempt is the last step.\<close>

datatype step = Probed port bool | Attempted port bool

definition record_probe ::
  "(port \<Rightarrow> 's \<Rightarrow> bool \<times> 's) \<Rightarrow> port \<Rightarrow> 's \<times> step list \<Rightarrow> bool \<times> 's \<times> step list" where
  "record_probe occ p sl =
     (case occ p (fst sl) of (b, s') \<Rightarrow> (b, s', snd sl @ [Probed p b]))"

definition record_attempt ::
  "(port \<Rightarrow> 's \<Rightarrow> result \<times> 's) \<Rightarrow> port \<Rightarrow> 's \<times> step list \<Rightarrow> result \<times> 's \<times> step list" where
  "record_attempt att p sl =
     (case att p (fst sl) of (r, s') \<Rightarrow> (r, s', snd sl @ [Attempted p (success r)]))"

fun follows :: "port list \<Rightarrow> step list \<Rightarrow> bool" where
  "follows [] steps = (steps = [])"
| "follows (p # ps) (Probed q True # rest) = (q = p \<and> follows ps rest)"
| "follows (p # ps) (Probed q False # Attempted q' ok # rest) =
     (q = p \<and> q' = p \<and> (if ok then rest = [] else follows ps rest))"
| "follows (p # ps) steps = False"

text \<open>A probe that finds exactly port 3000 taken and an attempt that succeeds exactly on
  port 3001; the state counts the calls.\<close>

definition demo_occ :: "port \<Rightarrow> nat \<Rightarrow> bool \<times> nat" where
  "demo_occ p n = (p = 3000, n + 1)"

definition demo_att :: "port \<Rightarrow> nat \<Rightarrow> result \<times> nat" where
  "demo_att p n =
     (if p = 3001
      then (\<lparr>success = True, url = Some ''http://localhost:3001'', port = Some 3001,
             res_pid = Some 4242, error = None\<rparr>, n + 1)
      else (failure (StartFailed p), n + 1))"

section \<open>What an announcement in the log is\<close>

text \<open>The words of the pattern, without the search: the text \<open>t\<close> begins with
  \<^verbatim>\<open>Local:\<close>, some white space, \<^verbatim>\<open>http://localhost:\<close> and the digits \<open>ds\<close>, and no
  further digit follows them.\<close>

definition announcement_at :: "pystr \<Rightarrow> pystr \<Rightarrow> bool" where
  "announcement_at t ds =
     (\<exists>ws r. t = codes ''Local:'' @ ws @ codes ''http://localhost:'' @ ds @ r
        \<and> ws \<noteq> [] \<and> (\<forall>c \<in> set ws. is_space c)
        \<and> ds \<noteq> [] \<and> (\<forall>c \<in> set ds. is_digit c)
        \<and> (r = [] \<or> \<not> is_digit (hd r)))"

text \<open>Two logs: one announcing port 3000 and then port 3001, and one announcing port 3001
  written with 4297 leading zeros.\<close>

definition two_announcements :: pystr where
  "two_announcements = codes ''Local: http://localhost:3000 Local: http://localhost:3001''"

definition leading_zeros :: pystr where
  "leading_zeros = replicate 4297 48"

definition padded_announcement :: pystr where
  "padded_announcement =
     codes ''Local:'' @ codes '' '' @ codes ''http://localhost:''
       @ (leading_zeros @ codes ''3001'') @ []"

section \<open>The states the public operations lead to\<close>


section \<open>Theorems\<close>

subsection \<open>Shared facts\<close>

lemma demo_manager_eq:
  "demo_manager =
     \<lparr>enabled = True, frontend_path = Some ''/srv/frontend'', start_port = 3000,
      fallback_ports = [3001, 3002], start_command = ''npm start'', timeout_seconds = 90,
      process = None, current_port = None, current_url = None, pid = None,
      frontend_stdout_log_file = None, frontend_stderr_log_file = None\<rparr>"
  by (simp add: demo_manager_def init_def demo_config_def find_frontend_path_def)



subsection \<open>Dependencies\<close>

text \<open>
  C1. A failed or killed install is meant not to stop the attempt: \<^verbatim>\<open>_start_on_port\<close>
  should go on to spawn the start command. The code does not: \<^verbatim>\<open>_ensure_dependencies\<close>
  returns \<^verbatim>\<open>None\<close> on every path, the caller tests \<^verbatim>\<open>not None\<close>, and the attempt
  ends with the dependency error before the log files are opened or anything is spawned.
  This holds when the dependencies are already there, when the install exits with 0,
  when it exits with 1 and when it is killed at the timeout.
\<close>

theorem start_on_port_never_spawns:
  "start_on_port demo_env 3001 demo_manager w0 =
     (failure DepsInstallFailed, demo_manager, \<lparr>now = 0, trace = [NodeModulesExists]\<rparr>)
   \<and> start_on_port
       (demo_env\<lparr>node_modules_exists := (\<lambda>h. False), npm_install := (\<lambda>h. InstallExit 0)\<rparr>)
       3001 demo_manager w0 =
     (failure DepsInstallFailed, demo_manager,
      \<lparr>now = 0, trace = [NodeModulesExists, NpmInstall]\<rparr>)
   \<and> start_on_port
       (demo_env\<lparr>node_modules_exists := (\<lambda>h. False), npm_install := (\<lambda>h. InstallExit 1)\<rparr>)
       3001 demo_manager w0 =
     (failure DepsInstallFailed, demo_manager,
      \<lparr>now = 0, trace = [NodeModulesExists, NpmInstall]\<rparr>)
   \<and> start_on_port
       (demo_env\<lparr>node_modules_exists := (\<lambda>h. False), npm_install := (\<lambda>h. InstallTimeout)\<rparr>)
       3001 demo_manager w0 =
     (failure DepsInstallFailed, demo_manager,
      \<lparr>now = 0, trace = [NodeModulesExists, NpmInstall, NpmKill]\<rparr>)"
  by (simp add: start_on_port_def ensure_dependencies_def Let_def demo_env_def w0_def emit_def)

subsection \<open>The build operation\<close>

text \<open>
  C8. The manager should expose \<^verbatim>\<open>build()\<close>. The class defines no such method (nor the
  \<^verbatim>\<open>start_dev_server\<close> that the command line entry point calls), although it stores
  \<^verbatim>\<open>build_command\<close>: the lookup of \<^verbatim>\<open>manager.build\<close> fails.
\<close>

theorem build_is_not_defined:
  "\<not> has_attribute ''build'' \<and> \<not> has_attribute ''start_dev_server''
   \<and> has_attribute ''build_command''"
  by (simp add: has_attribute_def instance_attributes_def methods_def)

subsection \<open>A disabled frontend\<close>

text \<open>
  C10. When the enabled flag is false, \<^verbatim>\<open>start_with_failover\<close> returns at once with
  success and the message that the frontend is disabled, whether or not a path was
  found; the object and the outside are as before: no port was probed, nothing was
  installed or spawned, and a runtime state that was all absent is still all absent.
\<close>

theorem start_with_failover_disabled:
  "\<not> enabled m \<Longrightarrow>
     start_with_failover e m w = (disabled_result, m, w)
     \<and> success disabled_result
     \<and> error disabled_result = Some FrontendDisabled
     \<and> (all_absent m \<longrightarrow> all_absent (fst (snd (start_with_failover e m w))))"
  by (simp add: start_with_failover_def start_with_failover_via_def disabled_result_def)

theorem start_with_failover_disabled_witness:
  "\<not> enabled (demo_manager\<lparr>enabled := False, frontend_path := None\<rparr>)
   \<and> all_absent (demo_manager\<lparr>enabled := False, frontend_path := None\<rparr>)
   \<and> start_with_failover demo_env (demo_manager\<lparr>enabled := False, frontend_path := None\<rparr>) w0 =
       (\<lparr>success = True, url = None, port = None, res_pid = None,
         error = Some FrontendDisabled\<rparr>,
        demo_manager\<lparr>enabled := False, frontend_path := None\<rparr>, w0)
   \<and> all_absent (fst (snd (start_with_failover demo_env
         (demo_manager\<lparr>enabled := False, frontend_path := None\<rparr>) w0)))"
proof -
  have h: "\<not> enabled (demo_manager\<lparr>enabled := False, frontend_path := None\<rparr>)"
    by simp
  have a: "all_absent (demo_manager\<lparr>enabled := False, frontend_path := None\<rparr>)"
    by (simp add: all_absent_def demo_manager_eq)
  show ?thesis
    using h a start_with_failover_disabled [OF h, of demo_env w0]
    by (simp add: disabled_result_def)
qed

lemma started_manager_eq:
  "started_manager =
     demo_manager\<lparr>process := Some 4242, current_port := Some 3001,
       current_url := Some ''http://localhost:3001'', pid := Some 4242,
       frontend_stdout_log_file := Some 2, frontend_stderr_log_file := Some 3\<rparr>"
  by code_simp

lemma first_with_manifest_Some:
  "first_with_manifest ex ds = Some d \<Longrightarrow>
     \<exists>pre post. ds = pre @ d # post \<and> ex (join d ''package.json'')
        \<and> (\<forall>x \<in> set pre. \<not> ex (join x ''package.json''))"
proof (induction ds)
  case Nil
  then show ?case by simp
next
  case (Cons a ds)
  show ?case
  proof (cases "ex (join a ''package.json'')")
    case True
    with Cons.prems have "a = d" by simp
    with True have "a # ds = [] @ d # ds \<and> ex (join d ''package.json'')
        \<and> (\<forall>x \<in> set []. \<not> ex (join x ''package.json''))" by simp
    then show ?thesis by blast
  next
    case False
    with Cons.prems have "first_with_manifest ex ds = Some d" by simp
    from Cons.IH [OF this] obtain pre post where
      "ds = pre @ d # post" "ex (join d ''package.json'')"
      "\<forall>x \<in> set pre. \<not> ex (join x ''package.json'')" by blast
    with False have "a # ds = (a # pre) @ d # post \<and> ex (join d ''package.json'')
        \<and> (\<forall>x \<in> set (a # pre). \<not> ex (join x ''package.json''))" by simp
    then show ?thesis by blast
  qed
qed

lemma first_with_manifest_None:
  "(first_with_manifest ex ds = None) = (\<forall>d \<in> set ds. \<not> ex (join d ''package.json''))"
  by (induction ds) auto

subsection \<open>Path resolution\<close>

text \<open>
  C9. A configured path that exists is the frontend path. Otherwise (nothing configured,
  or the configured path does not exist) the three candidate directories are probed
  in their fixed order for \<^verbatim>\<open>package.json\<close>, and the first that has it is the frontend
  path: every candidate before it lacks the manifest; no path is found exactly when no
  candidate has it. The constructor stores the outcome, and with no path an enabled
  \<^verbatim>\<open>start_with_failover\<close> returns the path failure with the object and the outside
  unchanged: no port probed, nothing installed, nothing spawned.
\<close>

theorem path_resolution:
  "(c \<noteq> [] \<and> ex c \<longrightarrow> find_frontend_path ex cwd (Some c) = Some c)
   \<and> (c = [] \<or> \<not> ex c \<longrightarrow>
        find_frontend_path ex cwd (Some c) = first_with_manifest ex (candidate_paths cwd))
   \<and> find_frontend_path ex cwd None = first_with_manifest ex (candidate_paths cwd)
   \<and> candidate_paths cwd =
        [cwd @ ''/interface_web'', cwd @ ''/frontend'',
         cwd @ ''/services/web_api/interface-web-argumentative'']
   \<and> (\<forall>d. first_with_manifest ex ds = Some d \<longrightarrow>
        (\<exists>pre post. ds = pre @ d # post \<and> ex (join d ''package.json'')
           \<and> (\<forall>x \<in> set pre. \<not> ex (join x ''package.json''))))
   \<and> ((first_with_manifest ex ds = None) = (\<forall>d \<in> set ds. \<not> ex (join d ''package.json'')))
   \<and> frontend_path (init ex cwd cfg) = find_frontend_path ex cwd (cfg_path cfg)
   \<and> (enabled m \<and> frontend_path m = None \<longrightarrow>
        start_with_failover e m w = (failure PathNotFound, m, w))"
proof -
  have "\<forall>d. first_with_manifest ex ds = Some d \<longrightarrow>
        (\<exists>pre post. ds = pre @ d # post \<and> ex (join d ''package.json'')
           \<and> (\<forall>x \<in> set pre. \<not> ex (join x ''package.json'')))"
    using first_with_manifest_Some [of ex ds] by blast
  moreover have "(first_with_manifest ex ds = None) =
      (\<forall>d \<in> set ds. \<not> ex (join d ''package.json''))"
    by (rule first_with_manifest_None)
  moreover have "enabled m \<and> frontend_path m = None \<longrightarrow>
        start_with_failover e m w = (failure PathNotFound, m, w)"
    by (simp add: start_with_failover_def start_with_failover_via_def)
  moreover have "candidate_paths cwd =
        [cwd @ ''/interface_web'', cwd @ ''/frontend'',
         cwd @ ''/services/web_api/interface-web-argumentative'']"
    by (simp add: candidate_paths_def join_def)
  moreover have "frontend_path (init ex cwd cfg) = find_frontend_path ex cwd (cfg_path cfg)"
    by (simp add: init_def)
  ultimately show ?thesis
    by (simp add: find_frontend_path_def)
qed

theorem path_resolution_witness:
  "find_frontend_path (\<lambda>p. p = ''/srv/frontend'') ''/work'' (Some ''/srv/frontend'')
     = Some ''/srv/frontend''
   \<and> find_frontend_path (\<lambda>p. p \<in> set [''/work/frontend/package.json'',
          ''/work/services/web_api/interface-web-argumentative/package.json''])
        ''/work'' (Some ''/nowhere'')
     = Some ''/work/frontend''
   \<and> find_frontend_path (\<lambda>p. False) ''/work'' None = None
   \<and> start_with_failover demo_env (init (\<lambda>p. False) ''/work'' demo_config) w0
     = (failure PathNotFound, init (\<lambda>p. False) ''/work'' demo_config, w0)"
proof -
  let ?ex2 = "\<lambda>p. p \<in> set [''/work/frontend/package.json'',
          ''/work/services/web_api/interface-web-argumentative/package.json'']"
  let ?m = "init (\<lambda>p. False) ''/work'' demo_config"
  have a: "find_frontend_path (\<lambda>p. p = ''/srv/frontend'') ''/work'' (Some ''/srv/frontend'')
     = Some ''/srv/frontend''"
    using path_resolution [of "''/srv/frontend''" "\<lambda>p. p = ''/srv/frontend''" "''/work''"]
    by simp
  have b: "find_frontend_path ?ex2 ''/work'' (Some ''/nowhere'') = Some ''/work/frontend''"
    using path_resolution [of "''/nowhere''" ?ex2 "''/work''"]
    by (simp add: candidate_paths_def join_def)
  have c: "find_frontend_path (\<lambda>p. False) ''/work'' None = None"
    using path_resolution [of "''x''" "\<lambda>p. False" "''/work''" "candidate_paths ''/work''"]
    by simp
  have "enabled ?m \<and> frontend_path ?m = None"
    using c by (simp add: init_def demo_config_def find_frontend_path_def)
  then have d: "start_with_failover demo_env ?m w0 = (failure PathNotFound, ?m, w0)"
    using path_resolution [of "''x''" "\<lambda>p. False" "''/work''" "[]" demo_config ?m demo_env w0]
    by blast
  from a b c d show ?thesis by blast
qed

subsection \<open>Readiness\<close>

text \<open>
  C6. When a poll cycle begins (the deadline has not passed) and the child has already
  exited, \<^verbatim>\<open>_wait_for_frontend\<close> returns \<open>(False, None, None)\<close> in that cycle: the only
  call made is the poll, so the log is not read, no HTTP request is sent, there is no
  sleep and no time passes. With a positive timeout this is the first cycle after the
  spawn.
\<close>

theorem wait_aborts_when_child_exited:
  "poll e (trace w @ [Poll]) = Some code \<Longrightarrow>
     (now w < end_time \<longrightarrow>
        wait_loop e end_time det u w =
          (Inr (False, None, None), w\<lparr>trace := trace w @ [Poll]\<rparr>))
     \<and> (0 < timeout_seconds m \<longrightarrow>
        wait_for_frontend e m initial_port w =
          (Inr (False, None, None), w\<lparr>trace := trace w @ [Poll]\<rparr>))"
  by (simp add: wait_for_frontend_def emit_def)

theorem wait_aborts_when_child_exited_witness:
  "poll (demo_env\<lparr>poll := (\<lambda>h. Some 1)\<rparr>) (trace w0 @ [Poll]) = Some 1
   \<and> now w0 < 90000 \<and> 0 < timeout_seconds demo_manager
   \<and> wait_loop (demo_env\<lparr>poll := (\<lambda>h. Some 1)\<rparr>) 90000 3000 None w0 =
       (Inr (False, None, None), \<lparr>now = 0, trace = [Poll]\<rparr>)
   \<and> wait_for_frontend (demo_env\<lparr>poll := (\<lambda>h. Some 1)\<rparr>) demo_manager 3000 w0 =
       (Inr (False, None, None), \<lparr>now = 0, trace = [Poll]\<rparr>)"
proof -
  have h: "poll (demo_env\<lparr>poll := (\<lambda>h. Some 1)\<rparr>) (trace w0 @ [Poll]) = Some 1"
    by simp
  have t: "now w0 < 90000 \<and> 0 < timeout_seconds demo_manager"
    by (simp add: w0_def demo_manager_eq)
  show ?thesis
    using h t wait_aborts_when_child_exited [OF h, of 90000 3000 None demo_manager 3000]
    by (simp add: w0_def)
qed

subsection \<open>The announcement pattern\<close>

lemma strip_prefix_Some: "(strip_prefix p s = Some r) = (s = p @ r)"
  by (induction p s rule: strip_prefix.induct) auto

lemma takeWhile_run:
  "\<forall>c \<in> set xs. P c \<Longrightarrow> ys = [] \<or> \<not> P (hd ys) \<Longrightarrow> takeWhile P (xs @ ys) = xs"
  by (cases ys) simp_all

lemma dropWhile_run:
  "\<forall>c \<in> set xs. P c \<Longrightarrow> ys = [] \<or> \<not> P (hd ys) \<Longrightarrow> dropWhile P (xs @ ys) = ys"
  by (cases ys) simp_all

lemma url_prefix_not_space: "\<not> is_space (hd (codes ''http://localhost:'' @ r))"
  by (simp add: codes_def is_space_def)

lemma match_here_announcement: "(match_here t = Some ds) = announcement_at t ds"
proof
  assume m: "match_here t = Some ds"
  then obtain r1 where r1: "t = codes ''Local:'' @ r1"
    by (auto simp: match_here_def strip_prefix_Some split: option.splits)
  then have sp: "strip_prefix (codes ''Local:'') t = Some r1"
    by (simp add: strip_prefix_Some)
  from m sp have ws: "takeWhile is_space r1 \<noteq> []"
    by (auto simp: match_here_def split: option.splits if_splits)
  from m sp ws obtain r2 where r2: "dropWhile is_space r1 = codes ''http://localhost:'' @ r2"
    by (auto simp: match_here_def strip_prefix_Some split: option.splits if_splits)
  then have sp2: "strip_prefix (codes ''http://localhost:'') (dropWhile is_space r1) = Some r2"
    by (simp add: strip_prefix_Some)
  from m sp ws sp2 have ds: "ds = takeWhile is_digit r2" "ds \<noteq> []"
    by (auto simp: match_here_def split: option.splits if_splits)
  have "r1 = takeWhile is_space r1 @ dropWhile is_space r1" by simp
  also have "\<dots> = takeWhile is_space r1 @ codes ''http://localhost:'' @ r2"
    by (simp only: r2)
  also have "r2 = ds @ dropWhile is_digit r2"
    by (simp add: ds(1))
  finally have "t = codes ''Local:'' @ takeWhile is_space r1 @ codes ''http://localhost:''
      @ ds @ dropWhile is_digit r2"
    using r1 by simp
  moreover have "\<forall>c \<in> set (takeWhile is_space r1). is_space c"
    by (meson set_takeWhileD)
  moreover have "\<forall>c \<in> set ds. is_digit c"
    using ds(1) by (meson set_takeWhileD)
  moreover have "dropWhile is_digit r2 = [] \<or> \<not> is_digit (hd (dropWhile is_digit r2))"
    using hd_dropWhile [of is_digit r2] by blast
  ultimately show "announcement_at t ds"
    unfolding announcement_at_def using ws ds(2) by blast
next
  assume "announcement_at t ds"
  then obtain ws r where t: "t = codes ''Local:'' @ ws @ codes ''http://localhost:'' @ ds @ r"
    and ws: "ws \<noteq> []" "\<forall>c \<in> set ws. is_space c"
    and ds: "ds \<noteq> []" "\<forall>c \<in> set ds. is_digit c"
    and r: "r = [] \<or> \<not> is_digit (hd r)"
    unfolding announcement_at_def by blast
  let ?u = "codes ''http://localhost:'' @ ds @ r"
  have sp: "strip_prefix (codes ''Local:'') t = Some (ws @ ?u)"
    using t by (simp add: strip_prefix_Some)
  have nsp: "?u = [] \<or> \<not> is_space (hd ?u)"
    using url_prefix_not_space [of "ds @ r"] by simp
  have tw: "takeWhile is_space (ws @ ?u) = ws"
    using ws(2) nsp by (rule takeWhile_run)
  have dw: "dropWhile is_space (ws @ ?u) = ?u"
    using ws(2) nsp by (rule dropWhile_run)
  have sp2: "strip_prefix (codes ''http://localhost:'') ?u = Some (ds @ r)"
    by (simp add: strip_prefix_Some)
  have td: "takeWhile is_digit (ds @ r) = ds"
    using ds(2) r by (rule takeWhile_run)
  show "match_here t = Some ds"
    unfolding match_here_def sp using tw dw sp2 td ws(1) ds(1) by simp
qed

lemma match_here_Nil: "match_here [] = None"
  by (simp add: match_here_def codes_def)

lemma re_search_leftmost:
  "i \<le> length s \<Longrightarrow> match_here (drop i s) = Some ds \<Longrightarrow>
     \<forall>j < i. match_here (drop j s) = None \<Longrightarrow> re_search s = Some ds"
proof (induction s arbitrary: i)
  case Nil
  then show ?case by (simp add: match_here_Nil)
next
  case (Cons c cs)
  show ?case
  proof (cases i)
    case 0
    with Cons.prems show ?thesis by simp
  next
    case (Suc k)
    with Cons.prems have first: "match_here (c # cs) = None"
      by (metis drop0 zero_less_Suc)
    have "k \<le> length cs" "match_here (drop k cs) = Some ds"
      using Cons.prems Suc by simp_all
    moreover have "\<forall>j < k. match_here (drop j cs) = None"
    proof (intro allI impI)
      fix j assume "j < k"
      with Suc have "Suc j < i" by simp
      with Cons.prems(3) have "match_here (drop (Suc j) (c # cs)) = None" by blast
      then show "match_here (drop j cs) = None" by simp
    qed
    ultimately have "re_search cs = Some ds" by (rule Cons.IH)
    with first show ?thesis by simp
  qed
qed

lemma re_search_finds_match:
  "re_search s = Some ds \<Longrightarrow>
     \<exists>i \<le> length s. match_here (drop i s) = Some ds \<and> (\<forall>j < i. match_here (drop j s) = None)"
proof (induction s)
  case Nil
  then show ?case by simp
next
  case (Cons c cs)
  show ?case
  proof (cases "match_here (c # cs)")
    case (Some d)
    with Cons.prems have "match_here (drop 0 (c # cs)) = Some ds
        \<and> (\<forall>j < (0::nat). match_here (drop j (c # cs)) = None)" by simp
    then show ?thesis by blast
  next
    case None
    with Cons.prems have "re_search cs = Some ds" by simp
    from Cons.IH [OF this] obtain i where i: "i \<le> length cs"
        "match_here (drop i cs) = Some ds" "\<forall>j < i. match_here (drop j cs) = None" by blast
    have "\<forall>j < Suc i. match_here (drop j (c # cs)) = None"
    proof (intro allI impI)
      fix j assume j: "j < Suc i"
      show "match_here (drop j (c # cs)) = None"
      proof (cases j)
        case 0
        with None show ?thesis by simp
      next
        case (Suc k)
        with j i(3) show ?thesis by simp
      qed
    qed
    with i(1,2) have "Suc i \<le> length (c # cs) \<and> match_here (drop (Suc i) (c # cs)) = Some ds
        \<and> (\<forall>j < Suc i. match_here (drop j (c # cs)) = None)" by simp
    then show ?thesis by blast
  qed
qed

lemma decimal_value_ascii: "0 \<le> d \<Longrightarrow> d < 10 \<Longrightarrow> decimal_value (48 + d) = Some d"
  by (simp add: decimal_value_def digit_runs_def)

lemma of_char_digit_char: "d < 10 \<Longrightarrow> of_char (digit_char d) = 48 + int d"
proof -
  assume d: "d < 10"
  have "(of_char (digit_char d) :: int) = int (of_char (digit_char d))"
    by (rule of_nat_of_char [symmetric])
  also have "(of_char (digit_char d) :: nat) = 48 + d"
    using d by (simp add: digit_char_def)
  finally show ?thesis by simp
qed

lemma digit_val_digit_char: "d < 10 \<Longrightarrow> digit_val (of_char (digit_char d)) = int d"
  using decimal_value_ascii [of "int d"]
  by (simp add: digit_val_def of_char_digit_char)

lemma is_digit_digit_char: "d < 10 \<Longrightarrow> is_digit (of_char (digit_char d))"
  using decimal_value_ascii [of "int d"]
  by (simp add: is_digit_def of_char_digit_char)

lemma int_of_digits_str_nat: "int_of_digits (codes (str_nat n)) = int n"
proof (induction n rule: str_nat.induct)
  case (1 n)
  show ?case
  proof (cases "n < 10")
    case True
    then show ?thesis
      by (subst str_nat.simps) (simp add: int_of_digits_def codes_def digit_val_digit_char)
  next
    case False
    have m: "n mod 10 < 10" by simp
    have "int_of_digits (codes (str_nat n)) =
        10 * int_of_digits (codes (str_nat (n div 10)))
          + digit_val (of_char (digit_char (n mod 10)))"
      using False by (subst str_nat.simps) (simp add: int_of_digits_def codes_def)
    also have "\<dots> = 10 * int (n div 10) + int (n mod 10)"
      using "1.IH" [OF False] m by (simp add: digit_val_digit_char)
    also have "\<dots> = int n" by presburger
    finally show ?thesis .
  qed
qed

lemma int_of_digits_leading_zeros:
  "int_of_digits (replicate k 48 @ ds) = int_of_digits ds"
proof -
  have z: "digit_val 48 = 0"
    using decimal_value_ascii [of 0] by (simp add: digit_val_def)
  have "foldl (\<lambda>n c. 10 * n + digit_val c) 0 (replicate k 48) = 0"
    by (induction k) (simp_all add: z)
  then show ?thesis
    by (simp add: int_of_digits_def)
qed

lemma scrape_leftmost_announcement:
  assumes "read_log e (trace w @ [ReadLog]) = LogContent s"
    and "i \<le> length s"
    and "announcement_at (drop i s) ds"
    and "\<forall>j < i. \<forall>ds'. \<not> announcement_at (drop j s) ds'"
    and "length ds \<le> 4300"
  shows "scrape e det w = (int_of_digits ds, w\<lparr>trace := trace w @ [ReadLog]\<rparr>)"
proof -
  have here: "match_here (drop i s) = Some ds"
    using assms(3) by (simp add: match_here_announcement)
  have before: "\<forall>j < i. match_here (drop j s) = None"
  proof (intro allI impI)
    fix j assume "j < i"
    with assms(4) have "\<forall>ds'. match_here (drop j s) \<noteq> Some ds'"
      by (simp add: match_here_announcement)
    then show "match_here (drop j s) = None"
      by (cases "match_here (drop j s)") simp_all
  qed
  have "re_search s = Some ds"
    using assms(2) here before by (rule re_search_leftmost)
  moreover have "py_int ds = Some (int_of_digits ds)"
    using assms(5) by (simp add: py_int_def)
  ultimately show ?thesis
    using assms(1) by (simp add: scrape_def emit_def)
qed

text \<open>
  C5. As stated the claim does not hold: a later announcement with another port, behind a
  first one with the tracked port, is not followed, and neither is an announcement whose
  digit string is longer than 4300 characters. What holds: in a poll cycle where
  the child is alive and the leftmost announcement \<^verbatim>\<open>Local: http://localhost:<port>\<close>
  in the stdout log has at most 4300 digits and a port other than the tracked one, the
  HTTP request of that cycle goes to the announced port. If it answers 200 the result is
  \<open>(True, announced port, http://localhost:<announced port>)\<close>; if it answers another
  status or the connection fails, the loop goes on with the announced port as the
  tracked one. The announced port is the decimal value of the digits: for the decimal
  writing of \<open>n\<close> it is \<open>n\<close>.
\<close>

theorem wait_follows_leftmost_announcement:
  assumes "now w < end_time"
    and "poll e (trace w @ [Poll]) = None"
    and "read_log e (trace w @ [Poll, ReadLog]) = LogContent s"
    and "i \<le> length s"
    and "announcement_at (drop i s) ds"
    and "\<forall>j < i. \<forall>ds'. \<not> announcement_at (drop j s) ds'"
    and "length ds \<le> 4300"
    and "int_of_digits ds \<noteq> det"
  shows "(http_get e (trace w @ [Poll, ReadLog, HttpGet (url_of (int_of_digits ds))])
            = HttpStatus 200 \<longrightarrow>
          fst (wait_loop e end_time det u w) =
            Inr (True, Some (int_of_digits ds),
                 Some (''http://localhost:'' @ str_int (int_of_digits ds)))
          \<and> trace (snd (wait_loop e end_time det u w)) =
            trace w @ [Poll, ReadLog, HttpGet (url_of (int_of_digits ds))])
         \<and> ((http_get e (trace w @ [Poll, ReadLog, HttpGet (url_of (int_of_digits ds))])
               = HttpClientError
             \<or> (\<exists>st. st \<noteq> 200 \<and>
                  http_get e (trace w @ [Poll, ReadLog, HttpGet (url_of (int_of_digits ds))])
                    = HttpStatus st)) \<longrightarrow>
          wait_loop e end_time det u w =
            wait_loop e end_time (int_of_digits ds) (Some (url_of (int_of_digits ds)))
              (sleep2 e (snd (http_probe e (url_of (int_of_digits ds))
                 (w\<lparr>trace := trace w @ [Poll, ReadLog]\<rparr>)))))
         \<and> (\<forall>n. ds = codes (str_nat n) \<longrightarrow> int_of_digits ds = int n)"
proof -
  let ?q = "int_of_digits ds"
  have "read_log e (trace (emit Poll w) @ [ReadLog]) = LogContent s"
    using assms(3) by (simp add: emit_def)
  from scrape_leftmost_announcement [OF this assms(4,5,6,7), of det]
  have sc: "scrape e det (emit Poll w) = (?q, w\<lparr>trace := trace w @ [Poll, ReadLog]\<rparr>)"
    by (simp add: emit_def)
  have tr: "trace (emit (HttpGet (url_of ?q)) (w\<lparr>trace := trace w @ [Poll, ReadLog]\<rparr>)) =
      trace w @ [Poll, ReadLog, HttpGet (url_of ?q)]"
    by (simp add: emit_def)
  have unfold: "wait_loop e end_time det u w =
      (case fst (http_probe e (url_of ?q) (w\<lparr>trace := trace w @ [Poll, ReadLog]\<rparr>)) of
         HttpStatus st \<Rightarrow>
           if st = 200
           then (Inr (True, Some ?q, Some (url_of ?q)),
                 snd (http_probe e (url_of ?q) (w\<lparr>trace := trace w @ [Poll, ReadLog]\<rparr>)))
           else wait_loop e end_time ?q (Some (url_of ?q))
                  (sleep2 e (snd (http_probe e (url_of ?q)
                     (w\<lparr>trace := trace w @ [Poll, ReadLog]\<rparr>))))
       | HttpClientError \<Rightarrow>
           wait_loop e end_time ?q (Some (url_of ?q))
             (sleep2 e (snd (http_probe e (url_of ?q) (w\<lparr>trace := trace w @ [Poll, ReadLog]\<rparr>))))
       | HttpOtherError x \<Rightarrow>
           (Inl x, snd (http_probe e (url_of ?q) (w\<lparr>trace := trace w @ [Poll, ReadLog]\<rparr>))))"
    using assms(1,2) sc
    by (subst wait_loop.simps) (simp add: Let_def emit_def)
  have probe: "fst (http_probe e (url_of ?q) (w\<lparr>trace := trace w @ [Poll, ReadLog]\<rparr>)) =
      http_get e (trace w @ [Poll, ReadLog, HttpGet (url_of ?q)])"
    using tr by (simp add: http_probe_def Let_def)
  have ptrace: "trace (snd (http_probe e (url_of ?q) (w\<lparr>trace := trace w @ [Poll, ReadLog]\<rparr>))) =
      trace w @ [Poll, ReadLog, HttpGet (url_of ?q)]"
    using tr by (simp add: http_probe_def Let_def)
  have dec: "\<forall>n. ds = codes (str_nat n) \<longrightarrow> int_of_digits ds = int n"
    by (simp add: int_of_digits_str_nat)
  have ok: "http_get e (trace w @ [Poll, ReadLog, HttpGet (url_of ?q)]) = HttpStatus 200 \<longrightarrow>
          fst (wait_loop e end_time det u w) =
            Inr (True, Some ?q, Some (''http://localhost:'' @ str_int ?q))
          \<and> trace (snd (wait_loop e end_time det u w)) =
            trace w @ [Poll, ReadLog, HttpGet (url_of ?q)]"
    unfolding unfold probe
    using ptrace by (simp add: url_of_def)
  have again: "(http_get e (trace w @ [Poll, ReadLog, HttpGet (url_of ?q)]) = HttpClientError
             \<or> (\<exists>st. st \<noteq> 200 \<and>
                  http_get e (trace w @ [Poll, ReadLog, HttpGet (url_of ?q)]) = HttpStatus st)) \<longrightarrow>
          wait_loop e end_time det u w =
            wait_loop e end_time ?q (Some (url_of ?q))
              (sleep2 e (snd (http_probe e (url_of ?q)
                 (w\<lparr>trace := trace w @ [Poll, ReadLog]\<rparr>))))"
  proof
    assume "http_get e (trace w @ [Poll, ReadLog, HttpGet (url_of ?q)]) = HttpClientError
             \<or> (\<exists>st. st \<noteq> 200 \<and>
                  http_get e (trace w @ [Poll, ReadLog, HttpGet (url_of ?q)]) = HttpStatus st)"
    then show "wait_loop e end_time det u w =
            wait_loop e end_time ?q (Some (url_of ?q))
              (sleep2 e (snd (http_probe e (url_of ?q)
                 (w\<lparr>trace := trace w @ [Poll, ReadLog]\<rparr>))))"
    proof
      assume "http_get e (trace w @ [Poll, ReadLog, HttpGet (url_of ?q)]) = HttpClientError"
      then show ?thesis unfolding unfold probe by simp
    next
      assume "\<exists>st. st \<noteq> 200 \<and>
          http_get e (trace w @ [Poll, ReadLog, HttpGet (url_of ?q)]) = HttpStatus st"
      then obtain st where "st \<noteq> 200"
          "http_get e (trace w @ [Poll, ReadLog, HttpGet (url_of ?q)]) = HttpStatus st"
        by (elim exE conjE)
      then show ?thesis unfolding unfold probe by simp
    qed
  qed
  show ?thesis
    by (rule conjI [OF ok conjI [OF again dec]])
qed

theorem wait_follows_leftmost_announcement_witness:
  "now w0 < 90000
   \<and> poll demo_env (trace w0 @ [Poll]) = None
   \<and> read_log demo_env (trace w0 @ [Poll, ReadLog])
       = LogContent (codes ''  Local:            http://localhost:3001'')
   \<and> announcement_at (drop 2 (codes ''  Local:            http://localhost:3001''))
       (codes (str_nat 3001))
   \<and> \<not> announcement_at (drop 0 (codes ''  Local:            http://localhost:3001''))
       (codes (str_nat 3001))
   \<and> \<not> announcement_at (drop 1 (codes ''  Local:            http://localhost:3001''))
       (codes (str_nat 3001))
   \<and> fst (wait_loop demo_env 90000 3000 None w0) =
       Inr (True, Some 3001, Some ''http://localhost:3001'')
   \<and> trace (snd (wait_loop demo_env 90000 3000 None w0)) =
       [Poll, ReadLog, HttpGet ''http://localhost:3001'']"
proof -
  let ?s = "codes ''  Local:            http://localhost:3001''"
  let ?ds = "codes (str_nat 3001)"
  have a: "now w0 < 90000" by (simp add: w0_def)
  have b: "poll demo_env (trace w0 @ [Poll]) = None" by (simp add: demo_env_def)
  have c: "read_log demo_env (trace w0 @ [Poll, ReadLog]) = LogContent ?s"
    by (simp add: demo_env_def)
  have len: "(2::nat) \<le> length ?s" by (simp add: codes_def)
  have "match_here (drop 2 ?s) = Some ?ds" by code_simp
  then have d: "announcement_at (drop 2 ?s) ?ds"
    by (simp only: match_here_announcement)
  have m0: "match_here (drop 0 ?s) = None" by code_simp
  have m1: "match_here (drop 1 ?s) = None" by code_simp
  have none: "\<forall>j < (2::nat). \<forall>ds'. \<not> announcement_at (drop j ?s) ds'"
  proof (intro allI impI)
    fix j :: nat and ds'
    assume "j < 2"
    then have "j = 0 \<or> j = 1" by arith
    with m0 m1 have "match_here (drop j ?s) = None" by auto
    then show "\<not> announcement_at (drop j ?s) ds'"
      by (simp add: match_here_announcement [symmetric])
  qed
  have short: "length ?ds \<le> 4300" by code_simp
  have i: "int_of_digits ?ds = 3001" by code_simp
  have f: "int_of_digits ?ds \<noteq> 3000" using i by simp
  have u: "url_of 3001 = ''http://localhost:3001''" by code_simp
  have s: "str_int 3001 = ''3001''" by code_simp
  have g: "http_get demo_env (trace w0 @ [Poll, ReadLog, HttpGet (url_of (int_of_digits ?ds))])
      = HttpStatus 200"
    by (simp add: demo_env_def)
  note main = wait_follows_leftmost_announcement [OF a b c len d none short f, of None]
  have "fst (wait_loop demo_env 90000 3000 None w0) =
            Inr (True, Some (int_of_digits ?ds),
                 Some (''http://localhost:'' @ str_int (int_of_digits ?ds)))
          \<and> trace (snd (wait_loop demo_env 90000 3000 None w0)) =
            trace w0 @ [Poll, ReadLog, HttpGet (url_of (int_of_digits ?ds))]"
    by (rule mp [OF conjunct1 [OF main] g])
  then have r: "fst (wait_loop demo_env 90000 3000 None w0) =
       Inr (True, Some 3001, Some ''http://localhost:3001'')
   \<and> trace (snd (wait_loop demo_env 90000 3000 None w0)) =
       [Poll, ReadLog, HttpGet ''http://localhost:3001'']"
    unfolding i u s by (simp add: w0_def)
  have two: "(0::nat) < 2" "(1::nat) < 2" by simp_all
  have n0: "\<not> announcement_at (drop 0 ?s) ?ds"
    by (rule none [rule_format, OF two(1)])
  have n1: "\<not> announcement_at (drop 1 ?s) ?ds"
    by (rule none [rule_format, OF two(2)])
  show ?thesis
    by (intro conjI) (rule a b c d n0 n1 conjunct1 [OF r] conjunct2 [OF r])+
qed

text \<open>
  Two logs on which an announcement of port 3001 is in the log, the tracked port is 3000,
  and the request still goes to port 3000, which is also the port in the result: in the
  first the announcement of 3001 stands behind one of 3000; in the second it is the only
  one, written with 4301 digits, so that the conversion raises and line 212 swallows it.
\<close>

theorem later_or_long_announcement_not_followed:
  "announcement_at (drop 29 two_announcements) (codes ''3001'')
   \<and> int_of_digits (codes ''3001'') = 3001
   \<and> wait_loop (demo_env\<lparr>read_log := (\<lambda>h. LogContent two_announcements)\<rparr>) 90000 3000 None w0 =
       (Inr (True, Some 3000, Some ''http://localhost:3000''),
        \<lparr>now = 0, trace = [Poll, ReadLog, HttpGet ''http://localhost:3000'']\<rparr>)
   \<and> announcement_at padded_announcement (leading_zeros @ codes ''3001'')
   \<and> length (leading_zeros @ codes ''3001'') = 4301
   \<and> int_of_digits (leading_zeros @ codes ''3001'') = 3001
   \<and> wait_loop (demo_env\<lparr>read_log := (\<lambda>h. LogContent padded_announcement)\<rparr>) 90000 3000 None w0 =
       (Inr (True, Some 3000, Some ''http://localhost:3000''),
        \<lparr>now = 0, trace = [Poll, ReadLog, HttpGet ''http://localhost:3000'']\<rparr>)"
proof -
  have "match_here (drop 29 two_announcements) = Some (codes ''3001'')" by code_simp
  then have a: "announcement_at (drop 29 two_announcements) (codes ''3001'')"
    by (simp only: match_here_announcement)
  have b: "int_of_digits (codes ''3001'') = 3001" by code_simp
  have c: "wait_loop (demo_env\<lparr>read_log := (\<lambda>h. LogContent two_announcements)\<rparr>)
        90000 3000 None w0 =
       (Inr (True, Some 3000, Some ''http://localhost:3000''),
        \<lparr>now = 0, trace = [Poll, ReadLog, HttpGet ''http://localhost:3000'']\<rparr>)"
    by code_simp
  let ?ds = "leading_zeros @ codes ''3001''"
  have zlen: "length leading_zeros = 4297"
    by (simp only: leading_zeros_def length_replicate)
  have zset: "\<forall>c \<in> set leading_zeros. c = 48"
  proof (intro ballI)
    fix c assume "c \<in> set leading_zeros"
    then show "c = 48"
      unfolding leading_zeros_def by (simp only: in_set_replicate)
  qed
  have d48: "is_digit 48"
    by (simp add: is_digit_def decimal_value_def digit_runs_def)
  have tail: "\<forall>c \<in> set (codes ''3001''). is_digit c"
    by (simp add: codes_def is_digit_def decimal_value_def digit_runs_def)
  have digits: "\<forall>c \<in> set ?ds. is_digit c"
    using zset d48 tail by auto
  have ne: "?ds \<noteq> []" by (simp add: codes_def)
  have d: "announcement_at padded_announcement ?ds"
    unfolding announcement_at_def padded_announcement_def
  proof (intro exI conjI)
    show "codes ''Local:'' @ codes '' '' @ codes ''http://localhost:'' @ ?ds @ [] =
        codes ''Local:'' @ codes '' '' @ codes ''http://localhost:'' @ ?ds @ []" by (rule refl)
    show "codes '' '' \<noteq> []" by (simp add: codes_def)
    show "\<forall>c \<in> set (codes '' ''). is_space c" by (simp add: codes_def is_space_def)
    show "?ds \<noteq> []" by (rule ne)
    show "\<forall>c \<in> set ?ds. is_digit c" by (rule digits)
    show "[] = [] \<or> \<not> is_digit (hd [])" by simp
  qed
  have len: "length ?ds = 4301"
    using zlen by (simp add: codes_def)
  have f: "int_of_digits ?ds = 3001"
    unfolding leading_zeros_def using b by (simp only: int_of_digits_leading_zeros)
  have here: "match_here (drop 0 padded_announcement) = Some ?ds"
    using d by (simp only: match_here_announcement drop0)
  have "re_search padded_announcement = Some ?ds"
    using _ here
  proof (rule re_search_leftmost)
    show "0 \<le> length padded_announcement" by simp
    show "\<forall>j < (0::nat). match_here (drop j padded_announcement) = None" by simp
  qed
  moreover have "py_int ?ds = None"
    unfolding py_int_def len by simp
  ultimately have sc: "\<And>w. scrape
        (demo_env\<lparr>read_log := (\<lambda>h. LogContent padded_announcement)\<rparr>) 3000 w =
      (3000, emit ReadLog w)"
    by (simp add: scrape_def)
  have u: "url_of 3000 = ''http://localhost:3000''" by code_simp
  have p: "\<And>h. poll demo_env h = None" by (simp add: demo_env_def)
  have h: "\<And>h. http_get demo_env h = HttpStatus 200" by (simp add: demo_env_def)
  have t: "\<And>h. http_time demo_env h = 0" by (simp add: demo_env_def)
  have g: "wait_loop (demo_env\<lparr>read_log := (\<lambda>h. LogContent padded_announcement)\<rparr>)
        90000 3000 None w0 =
       (Inr (True, Some 3000, Some ''http://localhost:3000''),
        \<lparr>now = 0, trace = [Poll, ReadLog, HttpGet ''http://localhost:3000'']\<rparr>)"
    by (subst wait_loop.simps)
      (simp add: sc u p h t Let_def emit_def http_probe_def w0_def)
  show ?thesis
    by (intro conjI) (rule a b c d len f g)+
qed

lemma wait_loop_deadline:
  "\<not> now w < end_time \<Longrightarrow>
     wait_loop e end_time det (Some v) w = (Inr (False, None, None), w)"
  by simp

lemma wait_loop_ready_needs_200:
  "fst (wait_loop e end_time det u w) = Inr (True, a, b) \<Longrightarrow>
     \<exists>h. http_get e h = HttpStatus 200"
proof (induction e end_time det u w rule: wait_loop.induct)
  case (1 e end_time det u w)
  show ?case
  proof (cases "now w < end_time")
    case False
    with "1.prems" show ?thesis
      by (simp split: option.splits)
  next
    case True
    note live = this
    show ?thesis
    proof (cases "poll e (trace (emit Poll w))")
      case (Some code)
      with live "1.prems" show ?thesis by simp
    next
      case None
      let ?d = "fst (scrape e det (emit Poll w))"
      let ?w2 = "snd (scrape e det (emit Poll w))"
      let ?r = "fst (http_probe e (url_of ?d) ?w2)"
      let ?w3 = "snd (http_probe e (url_of ?d) ?w2)"
      have probe: "\<exists>h. http_get e h = ?r"
        by (auto simp: http_probe_def Let_def)
      show ?thesis
      proof (cases ?r)
        case (HttpStatus st)
        show ?thesis
        proof (cases "st = 200")
          case True
          with HttpStatus probe show ?thesis by auto
        next
          case False
          with live None HttpStatus "1.prems"
          have "fst (wait_loop e end_time ?d (Some (url_of ?d)) (sleep2 e ?w3)) = Inr (True, a, b)"
            by (simp add: Let_def)
          with "1.IH"(1) [OF live refl None refl refl refl refl HttpStatus False]
          show ?thesis by simp
        qed
      next
        case HttpClientError
        with live None "1.prems"
        have "fst (wait_loop e end_time ?d (Some (url_of ?d)) (sleep2 e ?w3)) = Inr (True, a, b)"
          by (simp add: Let_def)
        with "1.IH"(2) [OF live refl None refl refl refl refl HttpClientError]
        show ?thesis by simp
      next
        case (HttpOtherError x)
        with live None "1.prems" show ?thesis
          by (simp add: Let_def)
      qed
    qed
  qed
qed

text \<open>
  C7. Only a 200 makes \<^verbatim>\<open>_wait_for_frontend\<close> succeed, and a refused connection or another
  status only leads to the next cycle; so far the code does what is claimed. But when
  the deadline has passed without a 200 it does not always return \<open>(False, None, None)\<close>:
  with \<^verbatim>\<open>timeout_seconds = 0\<close> the loop body never runs, \<^verbatim>\<open>url_to_check\<close> is never
  assigned, and the message after the loop (line 230) raises \<^verbatim>\<open>UnboundLocalError\<close>.
  Inside \<^verbatim>\<open>_start_on_port\<close> the exception reaches the general handler.
\<close>

theorem wait_for_frontend_zero_timeout_raises:
  "wait_for_frontend demo_env (demo_manager\<lparr>timeout_seconds := 0\<rparr>) 3000 w0 =
     (Inl UnboundLocalError, w0)
   \<and> fst (launch demo_env 3000 (demo_manager\<lparr>timeout_seconds := 0\<rparr>) w0) =
     failure (Critical UnboundLocalError)"
  by code_simp

subsection \<open>Stopping\<close>

lemma stop_without_process: "process m = None \<Longrightarrow> stop e m w = (m, w)"
  by (simp add: stop_def)

lemma stop_twice: "stop e' (fst (stop e m w)) w' = (fst (stop e m w), w')"
  by (simp add: stop_def Let_def split: option.split)

lemma stop_clears:
  "process (fst (stop e m w)) = None
   \<and> (process m \<noteq> None \<longrightarrow>
        current_url (fst (stop e m w)) = None \<and> pid (fst (stop e m w)) = None
        \<and> frontend_stdout_log_file (fst (stop e m w)) = None
        \<and> frontend_stderr_log_file (fst (stop e m w)) = None)"
  by (simp add: stop_def Let_def split: option.split)

lemma stop_keeps_port: "current_port (fst (stop e m w)) = current_port m"
  by (simp add: stop_def Let_def split: option.split)

text \<open>
  C2. \<^verbatim>\<open>stop()\<close> is a no-op without a process, and a second call changes nothing; with a
  process it closes each sink once and clears the process, the URL, the pid and both
  sinks. It is claimed to clear every runtime field, the current port among them. It
  does not: lines 302-304 reset \<^verbatim>\<open>process\<close>, \<^verbatim>\<open>current_url\<close> and \<^verbatim>\<open>pid\<close> only, and
  after stopping a started frontend the current port is still 3001.
\<close>

theorem stop_leaves_current_port:
  "current_port started_manager = Some 3001
   \<and> stop demo_env started_manager w0 =
       (demo_manager\<lparr>current_port := Some 3001\<rparr>,
        \<lparr>now = 0, trace = [Terminate, WaitTimeout, CloseLog 2, CloseLog 3]\<rparr>)
   \<and> current_port (fst (stop demo_env started_manager w0)) = Some 3001
   \<and> \<not> all_absent (fst (stop demo_env started_manager w0))"
  by (simp add: started_manager_eq demo_manager_eq stop_def shutdown_def close_sink_def
      emit_def Let_def demo_env_def w0_def all_absent_def)

subsection \<open>The invariant\<close>







subsection \<open>Failover\<close>

lemma failover_loop_recorded:
  "\<exists>l. failover_loop (record_probe occ) (record_attempt att) ps (s, l0) =
          (fst (failover_loop occ att ps s), snd (failover_loop occ att ps s), l0 @ l)
       \<and> follows ps l
       \<and> ((fst (failover_loop occ att ps s) \<noteq> None) = (\<exists>p. Attempted p True \<in> set l))"
proof (induction ps arbitrary: s l0)
  case Nil
  show ?case by simp
next
  case (Cons p ps)
  obtain b s1 where occ: "occ p s = (b, s1)" by (cases "occ p s")
  show ?case
  proof (cases b)
    case True
    from Cons.IH [of s1 "l0 @ [Probed p True]"] obtain l where
      l: "failover_loop (record_probe occ) (record_attempt att) ps (s1, l0 @ [Probed p True]) =
            (fst (failover_loop occ att ps s1), snd (failover_loop occ att ps s1),
             (l0 @ [Probed p True]) @ l)"
        "follows ps l"
        "(fst (failover_loop occ att ps s1) \<noteq> None) = (\<exists>p. Attempted p True \<in> set l)"
      by blast
    have "failover_loop (record_probe occ) (record_attempt att) (p # ps) (s, l0) =
          (fst (failover_loop occ att (p # ps) s), snd (failover_loop occ att (p # ps) s),
           l0 @ (Probed p True # l))
       \<and> follows (p # ps) (Probed p True # l)
       \<and> ((fst (failover_loop occ att (p # ps) s) \<noteq> None) =
            (\<exists>q. Attempted q True \<in> set (Probed p True # l)))"
      using occ True l by (simp add: record_probe_def)
    then show ?thesis by blast
  next
    case False
    note free = this
    obtain r s2 where att: "att p s1 = (r, s2)" by (cases "att p s1")
    show ?thesis
    proof (cases "success r")
      case True
      have "failover_loop (record_probe occ) (record_attempt att) (p # ps) (s, l0) =
            (fst (failover_loop occ att (p # ps) s), snd (failover_loop occ att (p # ps) s),
             l0 @ [Probed p False, Attempted p True])
         \<and> follows (p # ps) [Probed p False, Attempted p True]
         \<and> ((fst (failover_loop occ att (p # ps) s) \<noteq> None) =
              (\<exists>q. Attempted q True \<in> set [Probed p False, Attempted p True]))"
        using occ free att True by (simp add: record_probe_def record_attempt_def)
      then show ?thesis by blast
    next
      case False
      from Cons.IH [of s2 "l0 @ [Probed p False, Attempted p False]"] obtain l where
        l: "failover_loop (record_probe occ) (record_attempt att) ps
              (s2, l0 @ [Probed p False, Attempted p False]) =
              (fst (failover_loop occ att ps s2), snd (failover_loop occ att ps s2),
               (l0 @ [Probed p False, Attempted p False]) @ l)"
          "follows ps l"
          "(fst (failover_loop occ att ps s2) \<noteq> None) = (\<exists>p. Attempted p True \<in> set l)"
        by blast
      have "failover_loop (record_probe occ) (record_attempt att) (p # ps) (s, l0) =
            (fst (failover_loop occ att (p # ps) s), snd (failover_loop occ att (p # ps) s),
             l0 @ (Probed p False # Attempted p False # l))
         \<and> follows (p # ps) (Probed p False # Attempted p False # l)
         \<and> ((fst (failover_loop occ att (p # ps) s) \<noteq> None) =
              (\<exists>q. Attempted q True \<in> set (Probed p False # Attempted p False # l)))"
        using occ free att False l by (simp add: record_probe_def record_attempt_def)
      then show ?thesis by blast
    qed
  qed
qed

lemma failover_loop_success:
  "failover_loop occ att ps s = (Some x, s') \<Longrightarrow> success x"
proof (induction ps arbitrary: s)
  case Nil
  then show ?case by simp
next
  case (Cons p ps)
  obtain b s1 where occ: "occ p s = (b, s1)" by (cases "occ p s")
  obtain r s2 where att: "att p s1 = (r, s2)" by (cases "att p s1")
  show ?case
  proof (cases b)
    case True
    with Cons.prems occ have "failover_loop occ att ps s1 = (Some x, s')" by simp
    then show ?thesis by (rule Cons.IH)
  next
    case False
    show ?thesis
    proof (cases "success r")
      case True
      with Cons.prems occ att False show ?thesis by simp
    next
      case no: False
      with Cons.prems occ att False have "failover_loop occ att ps s2 = (Some x, s')" by simp
      then show ?thesis by (rule Cons.IH)
    qed
  qed
qed

text \<open>
  C4. For every configuration with the frontend enabled and a path found, and whatever
  the occupancy probe and the attempt do: the steps of \<^verbatim>\<open>start_with_failover\<close> follow
  the candidate list \<open>[start_port] + fallback_ports\<close> in order, a port reported occupied is
  passed over without an attempt, a free port gets one attempt, and the first successful
  attempt is the last step, after which no further port is probed. The result is a
  success exactly when some attempt succeeded. Writing the steps down changes neither
  the result nor the state, and \<^verbatim>\<open>start_with_failover\<close> is this run with
  \<^verbatim>\<open>_is_port_occupied\<close> and \<^verbatim>\<open>_start_on_port\<close> as probe and attempt.
\<close>

theorem start_with_failover_order:
  assumes "enabled m" and "frontend_path m \<noteq> None"
  shows "\<exists>steps.
      start_with_failover_via (record_probe occ) (record_attempt att) m (s, []) =
        (fst (start_with_failover_via occ att m s),
         snd (start_with_failover_via occ att m s), steps)
      \<and> follows (start_port m # fallback_ports m) steps
      \<and> success (fst (start_with_failover_via occ att m s)) =
          (\<exists>p. Attempted p True \<in> set steps)
      \<and> start_with_failover e m w =
          start_with_failover_via (probe_step e) (attempt_step e) m (m, w)"
proof -
  from failover_loop_recorded [of occ att "ports_to_try m" s "[]"] obtain l where
    l: "failover_loop (record_probe occ) (record_attempt att) (ports_to_try m) (s, []) =
          (fst (failover_loop occ att (ports_to_try m) s),
           snd (failover_loop occ att (ports_to_try m) s), l)"
      "follows (ports_to_try m) l"
      "(fst (failover_loop occ att (ports_to_try m) s) \<noteq> None) =
         (\<exists>p. Attempted p True \<in> set l)"
    by auto
  obtain r s' where run: "failover_loop occ att (ports_to_try m) s = (r, s')"
    by (cases "failover_loop occ att (ports_to_try m) s")
  have ordered: "follows (start_port m # fallback_ports m) l"
    using l(2) by (simp add: ports_to_try_def)
  from assms obtain y where fp: "frontend_path m = Some y" and en: "enabled m"
    by auto
  have via: "\<And>occ' att' (s0 :: 'b). start_with_failover_via occ' att' m s0 =
      (case failover_loop occ' att' (ports_to_try m) s0 of
         (Some r, s') \<Rightarrow> (r, s')
       | (None, s') \<Rightarrow> (failure (AllPortsFailed (ports_to_try m)), s'))"
    using fp en by (simp add: start_with_failover_via_def)
  have via_rec: "start_with_failover_via (record_probe occ) (record_attempt att) m (s, []) =
      (case failover_loop (record_probe occ) (record_attempt att) (ports_to_try m) (s, []) of
         (Some r, s') \<Rightarrow> (r, s')
       | (None, s') \<Rightarrow> (failure (AllPortsFailed (ports_to_try m)), s'))"
    using fp en by (simp add: start_with_failover_via_def)
  have conc: "start_with_failover e m w =
      start_with_failover_via (probe_step e) (attempt_step e) m (m, w)"
    by (simp add: start_with_failover_def)
  show ?thesis
  proof (cases r)
    case None
    have "start_with_failover_via (record_probe occ) (record_attempt att) m (s, []) =
        (fst (start_with_failover_via occ att m s),
         snd (start_with_failover_via occ att m s), l)
      \<and> success (fst (start_with_failover_via occ att m s)) =
          (\<exists>p. Attempted p True \<in> set l)"
      unfolding via via_rec l(1) using None run l(3) by (simp add: failure_def)
    with ordered conc show ?thesis by blast
  next
    case (Some x)
    with run have sx: "success x" by (simp add: failover_loop_success)
    have "start_with_failover_via (record_probe occ) (record_attempt att) m (s, []) =
        (fst (start_with_failover_via occ att m s),
         snd (start_with_failover_via occ att m s), l)
      \<and> success (fst (start_with_failover_via occ att m s)) =
          (\<exists>p. Attempted p True \<in> set l)"
      unfolding via via_rec l(1) using Some run l(3) sx by simp
    with ordered conc show ?thesis by blast
  qed
qed

theorem start_with_failover_order_witness:
  "enabled demo_manager \<and> frontend_path demo_manager \<noteq> None
   \<and> start_with_failover_via (record_probe demo_occ) (record_attempt demo_att) demo_manager
       (0, []) =
       (\<lparr>success = True, url = Some ''http://localhost:3001'', port = Some 3001,
          res_pid = Some 4242, error = None\<rparr>,
        3, [Probed 3000 True, Probed 3001 False, Attempted 3001 True])
   \<and> start_with_failover_via demo_occ demo_att demo_manager 0 =
       (\<lparr>success = True, url = Some ''http://localhost:3001'', port = Some 3001,
          res_pid = Some 4242, error = None\<rparr>, 3)
   \<and> follows (start_port demo_manager # fallback_ports demo_manager)
       [Probed 3000 True, Probed 3001 False, Attempted 3001 True]"
proof -
  have h: "enabled demo_manager" "frontend_path demo_manager \<noteq> None"
    by (simp_all add: demo_manager_eq)
  have run: "start_with_failover_via (record_probe demo_occ) (record_attempt demo_att)
       demo_manager (0, []) =
       (\<lparr>success = True, url = Some ''http://localhost:3001'', port = Some 3001,
          res_pid = Some 4242, error = None\<rparr>,
        3, [Probed 3000 True, Probed 3001 False, Attempted 3001 True])"
    by (simp add: start_with_failover_via_def demo_manager_eq ports_to_try_def
        record_probe_def record_attempt_def demo_occ_def demo_att_def failure_def)
  from start_with_failover_order [OF h, of demo_occ demo_att 0 demo_env w0] obtain steps where
    st: "start_with_failover_via (record_probe demo_occ) (record_attempt demo_att)
           demo_manager (0, []) =
         (fst (start_with_failover_via demo_occ demo_att demo_manager 0),
          snd (start_with_failover_via demo_occ demo_att demo_manager 0), steps)"
      "follows (start_port demo_manager # fallback_ports demo_manager) steps"
    by blast
  from st(1) run have steps: "steps = [Probed 3000 True, Probed 3001 False, Attempted 3001 True]"
    and res: "start_with_failover_via demo_occ demo_att demo_manager 0 =
       (\<lparr>success = True, url = Some ''http://localhost:3001'', port = Some 3001,
          res_pid = Some 4242, error = None\<rparr>, 3)"
    by (simp_all add: prod_eq_iff)
  from h run res st(2) steps show ?thesis by simp
qed

end
